theory Spec2Isabelle
  imports Main "HOL-Library.Word" "HOL-Library.Char_ord" "HOL-Library.List_Lexorder"
begin

section \<open>Bytes, strings and the Go library pieces the signer uses\<close>

text \<open>
  A Go \<^verbatim>\<open>[]byte\<close> is a list of 8-bit words; a Go \<^verbatim>\<open>string\<close> that names a type or a
  field is a \<open>string\<close> (a list of 8-bit characters, compared bytewise by the order of
  \<open>Char_ord\<close> and \<open>List_Lexorder\<close>, as Go compares strings). A nil slice and an empty
  slice of bytes both have length 0 and are the empty list.
\<close>

type_synonym byte = "8 word"

text \<open>
  Modelled from the spec: \<^verbatim>\<open>common.Address\<close> (declared in \<^verbatim>\<open>common/types.go\<close>, not among
  the sources) is the 20-byte address; \<open>Address_Bytes\<close> is its \<^verbatim>\<open>Bytes()\<close>.
\<close>

typedef Address = "{bs :: byte list. length bs = 20}"
  morphisms Address_Bytes BytesToAddress20
  by (rule exI [of _ "replicate 20 0"]) simp

text \<open>
  Modelled from the spec: \<^verbatim>\<open>common.Hash\<close> (declared in \<^verbatim>\<open>common/types.go\<close>, not among
  the sources) is the 32-byte hash; \<open>Hash_Bytes\<close> is its \<^verbatim>\<open>Bytes()\<close>.
\<close>

typedef Hash = "{bs :: byte list. length bs = 32}"
  morphisms Hash_Bytes BytesToHash32
  by (rule exI [of _ "replicate 32 0"]) simp

text \<open>
  The collaborators that are outside the sources enter as parameters, collected in one
  record that every operation takes first:
  \<^item> \<open>Keccak256\<close>: \<^verbatim>\<open>crypto.Keccak256\<close>;
  \<^item> \<open>IsHexAddress\<close>, \<open>HexToAddress\<close>: \<^verbatim>\<open>common.IsHexAddress\<close>, \<^verbatim>\<open>common.HexToAddress\<close>;
  \<^item> \<open>UnmarshalText\<close>: \<^verbatim>\<open>(*math.HexOrDecimal256).UnmarshalText\<close>, \<open>None\<close> when it
    returns an error;
  \<^item> \<open>Float64ToInt64\<close>: on the bits of a \<^verbatim>\<open>float64\<close> \<open>v\<close>, \<open>Some (int64(v))\<close> when
    \<^verbatim>\<open>float64(int64(v)) == v\<close> and \<open>None\<close> otherwise;
  \<^item> \<open>IsUpperNonASCII\<close>: \<^verbatim>\<open>unicode.IsUpper\<close> of the first rune of a string that starts
    with a byte outside ASCII.
\<close>

record lib =
  Keccak256 :: "byte list \<Rightarrow> byte list"
  IsHexAddress :: "string \<Rightarrow> bool"
  HexToAddress :: "string \<Rightarrow> Address"
  UnmarshalText :: "string \<Rightarrow> int option"
  Float64ToInt64 :: "64 word \<Rightarrow> int option"
  IsUpperNonASCII :: "string \<Rightarrow> bool"

subsection \<open>Package strings and strconv\<close>

definition HasPrefix :: "string \<Rightarrow> string \<Rightarrow> bool" where
  "HasPrefix s pre = (take (length pre) s = pre)"

definition TrimPrefix :: "string \<Rightarrow> string \<Rightarrow> string" where
  "TrimPrefix s pre = (if HasPrefix s pre then drop (length pre) s else s)"

definition HasSuffix :: "string \<Rightarrow> string \<Rightarrow> bool" where
  "HasSuffix s suf = (length suf \<le> length s \<and> drop (length s - length suf) s = suf)"

definition TrimSuffix :: "string \<Rightarrow> string \<Rightarrow> string" where
  "TrimSuffix s suf = (if HasSuffix s suf then take (length s - length suf) s else s)"

text \<open>\<^verbatim>\<open>strconv.Itoa\<close> / the verb \<^verbatim>\<open>%d\<close> on a non-negative \<^verbatim>\<open>int\<close>: decimal digits.\<close>

definition digit_char :: "nat \<Rightarrow> char" where
  "digit_char d = ''0123456789'' ! d"

function itoa :: "nat \<Rightarrow> string" where
  "itoa n = (if n < 10 then [digit_char n] else itoa (n div 10) @ [digit_char (n mod 10)])"
  by pat_completeness auto
termination
  by (relation "measure id") auto

declare itoa.simps [simp del]

text \<open>
  \<^verbatim>\<open>strconv.Atoi\<close> (base 10, 64-bit \<^verbatim>\<open>int\<close>): an optional sign \<^verbatim>\<open>+\<close> or \<^verbatim>\<open>-\<close>, then
  one or more decimal digits; \<open>None\<close> for a syntax error and for a value outside the
  range of \<^verbatim>\<open>int\<close>.
\<close>

definition is_digit :: "char \<Rightarrow> bool" where
  "is_digit c = (CHR ''0'' \<le> c \<and> c \<le> CHR ''9'')"

definition digit_val :: "char \<Rightarrow> nat" where
  "digit_val c = of_char c - 48"

definition decimal_val :: "string \<Rightarrow> nat" where
  "decimal_val ds = foldl (\<lambda>n c. n * 10 + digit_val c) 0 ds"

definition Atoi :: "string \<Rightarrow> int option" where
  "Atoi s =
     (let neg = (s \<noteq> [] \<and> hd s = CHR ''-'');
          ds = (if s \<noteq> [] \<and> (hd s = CHR ''-'' \<or> hd s = CHR ''+'') then tl s else s)
      in if ds = [] \<or> \<not> list_all is_digit ds then None
         else let n = (if neg then - int (decimal_val ds) else int (decimal_val ds))
              in if n < - (2 ^ 63) \<or> 2 ^ 63 - 1 < n then None else Some n)"

subsection \<open>Big integers\<close>

text \<open>
  A \<^verbatim>\<open>*big.Int\<close> is an \<open>int\<close>. \<^verbatim>\<open>BitLen\<close> is the length in bits of the absolute value
  (0 for 0), \<^verbatim>\<open>Bytes\<close> the big-endian bytes of the absolute value without leading
  zeros, \<^verbatim>\<open>SetBytes\<close> reads a big-endian unsigned integer.
\<close>

function nat_bitlen :: "nat \<Rightarrow> nat" where
  "nat_bitlen n = (if n = 0 then 0 else Suc (nat_bitlen (n div 2)))"
  by pat_completeness auto
termination
  by (relation "measure id") auto

declare nat_bitlen.simps [simp del]

definition BitLen :: "int \<Rightarrow> int" where
  "BitLen x = int (nat_bitlen (nat \<bar>x\<bar>))"

function nat_bytes :: "nat \<Rightarrow> byte list" where
  "nat_bytes n = (if n = 0 then [] else nat_bytes (n div 256) @ [of_nat (n mod 256)])"
  by pat_completeness auto
termination
  by (relation "measure id") auto

declare nat_bytes.simps [simp del]

definition big_Bytes :: "int \<Rightarrow> byte list" where
  "big_Bytes x = nat_bytes (nat \<bar>x\<bar>)"

definition bytes_nat :: "byte list \<Rightarrow> nat" where
  "bytes_nat bs = foldl (\<lambda>n b. n * 256 + unat b) 0 bs"

definition SetBytes :: "byte list \<Rightarrow> int" where
  "SetBytes bs = int (bytes_nat bs)"

text \<open>
  Modelled from the spec: \<^verbatim>\<open>math.PaddedBigBytes\<close> (in \<^verbatim>\<open>common/math\<close>, not among the
  sources) emits the big-endian bytes of a big integer padded to n bytes, the padding
  zeros in front; a value that needs more than n bytes is not cut.
\<close>

definition PaddedBigBytes :: "int \<Rightarrow> nat \<Rightarrow> byte list" where
  "PaddedBigBytes bigint n = replicate (n - length (big_Bytes bigint)) 0 @ big_Bytes bigint"

text \<open>
  Modelled from the spec: \<^verbatim>\<open>math.U256Bytes\<close> (in \<^verbatim>\<open>common/math\<close>, not among the sources)
  emits the 32-byte two's-complement big-endian representation: the value is reduced
  modulo \<open>2 ^ 256\<close> and padded to 32 bytes.
\<close>

definition U256Bytes :: "int \<Rightarrow> byte list" where
  "U256Bytes n = PaddedBigBytes (n mod 2 ^ 256) 32"

section \<open>The data model\<close>

text \<open>
  \<^verbatim>\<open>Type\<close> is a field descriptor. \<^verbatim>\<open>Types\<close> is \<^verbatim>\<open>map[string][]Type\<close>: an association
  list with distinct keys, looked up with \<open>map_of\<close>; a value is \<open>None\<close> for a nil slice
  (JSON \<^verbatim>\<open>null\<close>) and \<open>Some fs\<close> otherwise, since the code tests \<^verbatim>\<open>Types[k] == nil\<close>,
  which holds for an absent key and for a nil slice but not for an empty one.
\<close>

record Type =
  Name :: string
  Type :: string

type_synonym Types = "(string \<times> Type list option) list"

text \<open>\<^verbatim>\<open>Types[k]\<close> read as a slice: \<open>None\<close> when it is nil.\<close>

definition Types_at :: "Types \<Rightarrow> string \<Rightarrow> Type list option" where
  "Types_at types k = (case map_of types k of Some (Some fs) \<Rightarrow> Some fs | _ \<Rightarrow> None)"

text \<open>The same slice under \<^verbatim>\<open>range\<close> and \<^verbatim>\<open>len\<close>: nil has no elements.\<close>

definition Types_fields :: "Types \<Rightarrow> string \<Rightarrow> Type list" where
  "Types_fields types k = (case Types_at types k of Some fs \<Rightarrow> fs | None \<Rightarrow> [])"

definition isArray :: "Type \<Rightarrow> bool" where
  "isArray t = HasSuffix (Type.Type t) ''[]''"

definition typeName :: "Type \<Rightarrow> string" where
  "typeName t =
     (if HasSuffix (Type.Type t) ''[]'' then TrimSuffix (Type.Type t) ''[]'' else Type.Type t)"

definition is_upper_ascii :: "char \<Rightarrow> bool" where
  "is_upper_ascii c = (CHR ''A'' \<le> c \<and> c \<le> CHR ''Z'')"

definition isReferenceType :: "lib \<Rightarrow> Type \<Rightarrow> bool" where
  "isReferenceType L t =
     (if length (Type.Type t) = 0 then False
      else if (of_char (hd (Type.Type t)) :: nat) < 128 then is_upper_ascii (hd (Type.Type t))
      else IsUpperNonASCII L (Type.Type t))"

text \<open>
  The dynamic values of a message (\<^verbatim>\<open>interface{}\<close>): nil, \<^verbatim>\<open>string\<close>, \<^verbatim>\<open>bool\<close>,
  \<^verbatim>\<open>float64\<close> (its 64 bits), \<^verbatim>\<open>[]byte\<close>, \<^verbatim>\<open>hexutil.Bytes\<close>, a non-nil
  \<^verbatim>\<open>*math.HexOrDecimal256\<close>, \<^verbatim>\<open>[]interface{}\<close>, \<^verbatim>\<open>map[string]interface{}\<close> (an
  association list with distinct keys), and a value of any other dynamic type (a nil
  pointer to a \<^verbatim>\<open>math.HexOrDecimal256\<close> among them), which no type assertion of the
  encoder accepts and which \<^verbatim>\<open>parseInteger\<close> leaves without a big integer.
\<close>

datatype val =
    VNil
  | VString string
  | VBool bool
  | VFloat64 "64 word"
  | VBytes "byte list"
  | VHexBytes "byte list"
  | VBig int
  | VArray "val list"
  | VMap "(string \<times> val) list"
  | VOther string

type_synonym TypedDataMessage = "(string \<times> val) list"

text \<open>\<^verbatim>\<open>data[key]\<close>: the nil interface when the key is absent.\<close>

definition data_at :: "TypedDataMessage \<Rightarrow> string \<Rightarrow> val" where
  "data_at data key = (case map_of data key of Some v \<Rightarrow> v | None \<Rightarrow> VNil)"

text \<open>
  \<^verbatim>\<open>TypedDataDomain\<close>: \<^verbatim>\<open>ChainId\<close> is a pointer to a big integer, \<open>None\<close> when nil.
\<close>

record TypedDataDomain =
  Name :: string
  Version :: string
  ChainId :: "int option"
  VerifyingContract :: string
  Salt :: string

record TypedData =
  Types :: Types
  PrimaryType :: string
  Domain :: TypedDataDomain
  Message :: TypedDataMessage

text \<open>
  Errors are values. \<open>ErrorString\<close> is \<^verbatim>\<open>errors.New\<close> with its text; the other
  constructors are the \<^verbatim>\<open>fmt.Errorf\<close> sites with their operands; \<open>IndexPanic\<close> is the
  run-time panic of slicing an empty type string in \<^verbatim>\<open>EncodeData\<close>.
\<close>

datatype error =
    ErrorString string
  | DataMismatch string val
  | InvalidSizeOnInteger string
  | InvalidSizeOnBytes string
  | InvalidSizeOnBytesNumber int
  | UnmarshalTextError string
  | InvalidFloatValue val string
  | InvalidIntegerValue val string
  | IntegerLargerThan string
  | InvalidNegativeValue string
  | UnrecognizedType string
  | EmptyTypeKey
  | EmptyType string nat
  | EmptyName string nat
  | CannotReferenceItself string
  | ReferenceTypeUndefined string
  | UnknownReferenceType string
  | UnknownType string
  | IndexPanic

definition dataMismatchError :: "string \<Rightarrow> val \<Rightarrow> error" where
  "dataMismatchError encType encValue = DataMismatch encType encValue"

section \<open>The validator-prefix codec\<close>

record ValidatorData =
  Address :: Address
  Message :: "byte list"

text \<open>
  \<^verbatim>\<open>SignTextValidator\<close>: \<^verbatim>\<open>msg := fmt.Sprintf("\x19\x00%s%s", string(addr.Bytes()), string(message))\<close>
  and \<^verbatim>\<open>return crypto.Keccak256([]byte(msg)), msg\<close>. The verb \<^verbatim>\<open>%s\<close> copies the bytes of
  its operand, so the Go string \<^verbatim>\<open>msg\<close> is kept as its byte sequence.
\<close>

definition SignTextValidator :: "lib \<Rightarrow> ValidatorData \<Rightarrow> byte list \<times> byte list" where
  "SignTextValidator L validatorData =
     (let msg = [0x19, 0x00] @ Address_Bytes (Address validatorData)
                  @ ValidatorData.Message validatorData
      in (Keccak256 L msg, msg))"

section \<open>The clique header pre-image\<close>

text \<open>
  \<^verbatim>\<open>types.Header\<close> is declared outside the sources; the helper reads only its
  \<^verbatim>\<open>Extra\<close> field, so the header is an extensible record with that field. The two
  calls \<^verbatim>\<open>clique.CliqueRLP(header)\<close> and \<^verbatim>\<open>clique.SealHash(header)\<close> are parameters;
  \<^verbatim>\<open>SealHash\<close> returns a \<^verbatim>\<open>common.Hash\<close>. The three named results are
  \<^verbatim>\<open>(hash, rlp, err)\<close>; \<^verbatim>\<open>err\<close> is \<open>None\<close> for Go's nil error and the message
  otherwise.
\<close>

record Header =
  Extra :: "byte list"

definition cliqueHeaderHashAndRlp ::
  "('h Header_scheme \<Rightarrow> byte list) \<Rightarrow> ('h Header_scheme \<Rightarrow> Hash) \<Rightarrow> 'h Header_scheme
     \<Rightarrow> byte list \<times> byte list \<times> string option" where
  "cliqueHeaderHashAndRlp CliqueRLP SealHash header =
     (if length (Extra header) < 65
      then ([], [],
            Some (''clique header extradata too short, '' @ itoa (length (Extra header))
                    @ '' < 65''))
      else (Hash_Bytes (SealHash header), CliqueRLP header, None))"

section \<open>The primitive encoder\<close>

definition parseInteger :: "lib \<Rightarrow> string \<Rightarrow> val \<Rightarrow> error + int" where
  "parseInteger L encType encValue =
     (let signed = HasPrefix encType ''int'' in
      case (if encType = ''int'' \<or> encType = ''uint'' then Inr 256
            else let lengthStr = (if HasPrefix encType ''uint'' then TrimPrefix encType ''uint''
                                  else TrimPrefix encType ''int'')
                 in case Atoi lengthStr of
                      None \<Rightarrow> Inl (InvalidSizeOnInteger lengthStr)
                    | Some atoiSize \<Rightarrow> Inr atoiSize) of
        Inl err \<Rightarrow> Inl err
      | Inr len \<Rightarrow>
          (case (case encValue of
                   VBig v \<Rightarrow> Inr (Some v)
                 | VString v \<Rightarrow>
                     (case UnmarshalText L v of
                        None \<Rightarrow> Inl (UnmarshalTextError v)
                      | Some hexIntValue \<Rightarrow> Inr (Some hexIntValue))
                 | VFloat64 v \<Rightarrow>
                     (case Float64ToInt64 L v of
                        Some i \<Rightarrow> Inr (Some i)
                      | None \<Rightarrow> Inl (InvalidFloatValue encValue encType))
                 | _ \<Rightarrow> Inr None) of
             Inl err \<Rightarrow> Inl err
           | Inr None \<Rightarrow> Inl (InvalidIntegerValue encValue encType)
           | Inr (Some b) \<Rightarrow>
               if BitLen b > len then Inl (IntegerLargerThan encType)
               else if \<not> signed \<and> b < 0 then Inl (InvalidNegativeValue encType)
               else Inr b))"

text \<open>
  \<^verbatim>\<open>EncodePrimitiveValue\<close>; the receiver is not read, and neither is \<^verbatim>\<open>depth\<close>.
\<close>

definition EncodePrimitiveValue :: "lib \<Rightarrow> string \<Rightarrow> val \<Rightarrow> int \<Rightarrow> error + byte list" where
  "EncodePrimitiveValue L encType encValue depth =
     (if encType = ''address'' then
        (case encValue of
           VString stringValue \<Rightarrow>
             if \<not> IsHexAddress L stringValue then Inl (dataMismatchError encType encValue)
             else Inr (replicate 12 0 @ Address_Bytes (HexToAddress L stringValue))
         | _ \<Rightarrow> Inl (dataMismatchError encType encValue))
      else if encType = ''bool'' then
        (case encValue of
           VBool boolValue \<Rightarrow>
             if boolValue then Inr (PaddedBigBytes 1 32) else Inr (PaddedBigBytes 0 32)
         | _ \<Rightarrow> Inl (dataMismatchError encType encValue))
      else if encType = ''string'' then
        (case encValue of
           VString strVal \<Rightarrow> Inr (Keccak256 L (map of_char strVal))
         | _ \<Rightarrow> Inl (dataMismatchError encType encValue))
      else if encType = ''bytes'' then
        (case encValue of
           VBytes bytesValue \<Rightarrow> Inr (Keccak256 L bytesValue)
         | _ \<Rightarrow> Inl (dataMismatchError encType encValue))
      else if HasPrefix encType ''bytes'' then
        (let lengthStr = TrimPrefix encType ''bytes'' in
         case Atoi lengthStr of
           None \<Rightarrow> Inl (InvalidSizeOnBytes lengthStr)
         | Some len \<Rightarrow>
             if len < 0 \<or> len > 32 then Inl (InvalidSizeOnBytesNumber len)
             else (case encValue of
                     VHexBytes byteValue \<Rightarrow> Inr (PaddedBigBytes (SetBytes byteValue) 32)
                   | _ \<Rightarrow> Inl (dataMismatchError encType encValue)))
      else if HasPrefix encType ''int'' \<or> HasPrefix encType ''uint'' then
        (case parseInteger L encType encValue of
           Inl err \<Rightarrow> Inl err
         | Inr b \<Rightarrow> Inr (U256Bytes b))
      else Inl (UnrecognizedType encType))"

text \<open>
  \<^verbatim>\<open>TypedDataDomain.validate\<close>: the test of \<^verbatim>\<open>ChainId\<close> is commented out in the source;
  what is left looks at the four string fields.
\<close>

definition domain_validate :: "TypedDataDomain \<Rightarrow> error option" where
  "domain_validate domain =
     (if length (TypedDataDomain.Name domain) = 0 \<and> length (Version domain) = 0
         \<and> length (VerifyingContract domain) = 0 \<and> length (Salt domain) = 0
      then Some (ErrorString ''domain is undefined'')
      else None)"

section \<open>Dependencies and the type encoder\<close>

text \<open>
  The closure \<^verbatim>\<open>includes\<close> of \<^verbatim>\<open>Dependencies\<close> (linear search), and its inner loop, which
  appends to \<^verbatim>\<open>found\<close> every returned name that \<^verbatim>\<open>found\<close> does not hold yet.
\<close>

fun includes_str :: "string list \<Rightarrow> string \<Rightarrow> bool" where
  "includes_str [] str = False"
| "includes_str (obj # arr) str = (if obj = str then True else includes_str arr str)"

fun add_missing :: "string list \<Rightarrow> string list \<Rightarrow> string list" where
  "add_missing found [] = found"
| "add_missing found (dep # deps) =
     add_missing (if \<not> includes_str found dep then found @ [dep] else found) deps"

lemma includes_set [simp]: "includes_str arr str = (str \<in> set arr)"
  by (induction arr) auto

lemma set_add_missing: "set (add_missing found deps) = set found \<union> set deps"
  by (induction deps arbitrary: found) auto

lemma Types_at_key: "Types_at types k = Some fs \<Longrightarrow> k \<in> fst ` set types"
  by (auto simp: Types_at_def split: option.splits dest: map_of_SomeD intro: rev_image_eqI)

text \<open>
  \<^verbatim>\<open>Dependencies\<close>: the recursion goes through the loop over the fields, which is the
  second function. The recursive call is made on \<^verbatim>\<open>field.Type\<close> as it is written.
  A slice returned by the call may share its array with \<^verbatim>\<open>found\<close>; every result only
  extends \<^verbatim>\<open>found\<close> by names not in it, so the appends of the inner loop rewrite the
  shared cells with the values they hold, and lists model the slices. The search ends
  because every call that recurses adds a key of the dictionary to \<^verbatim>\<open>found\<close>.
\<close>

function Dependencies :: "Types \<Rightarrow> string \<Rightarrow> string list \<Rightarrow> string list"
  and Dependencies_fields :: "Types \<Rightarrow> Type list \<Rightarrow> string list \<Rightarrow> string list" where
  "Dependencies types primaryType found =
     (if includes_str found primaryType then found
      else case Types_at types primaryType of
             None \<Rightarrow> found
           | Some fs \<Rightarrow> Dependencies_fields types fs (found @ [primaryType]))"
| "Dependencies_fields types [] found = found"
| "Dependencies_fields types (field # fs) found =
     Dependencies_fields types fs
       (add_missing found (Dependencies types (Type.Type field) found))"
  by pat_completeness auto
termination
proof (relation "measures
    [\<lambda>x. case x of Inl (types, p, found) \<Rightarrow> card (fst ` set types - set found)
                 | Inr (types, fs, found) \<Rightarrow> card (fst ` set types - set found),
     \<lambda>x. case x of Inl (types, p, found) \<Rightarrow> 0
                 | Inr (types, fs, found) \<Rightarrow> Suc (length fs)]", goal_cases)
  case 1
  show ?case by simp
next
  case (2 types primaryType found fs)
  then have mem: "primaryType \<in> fst ` set types - set found"
    by (auto dest: Types_at_key)
  have "card ((fst ` set types - set found) - {primaryType})
          < card (fst ` set types - set found)"
    by (rule card_Diff1_less [OF _ mem]) simp
  moreover have "fst ` set types - set (found @ [primaryType])
                   = (fst ` set types - set found) - {primaryType}"
    by auto
  ultimately have "card (fst ` set types - set (found @ [primaryType]))
                     < card (fst ` set types - set found)"
    by (simp only:)
  then show ?case by simp
next
  case (3 types field fs found)
  show ?case by simp
next
  case (4 types field fs found)
  have "card (fst ` set types - set (add_missing found (Dependencies types (Type.Type field) found)))
          \<le> card (fst ` set types - set found)"
    by (rule card_mono) (auto simp: set_add_missing)
  then show ?case by auto
qed

text \<open>
  \<^verbatim>\<open>EncodeType\<close>: one round of the loop over \<^verbatim>\<open>deps\<close> writes the name, \<^verbatim>\<open>(\<close>, the
  fields each followed by a comma, cuts the last byte of the buffer
  (\<^verbatim>\<open>buffer.Truncate(buffer.Len() - 1)\<close>) and writes \<^verbatim>\<open>)\<close>. \<^verbatim>\<open>sort.Strings\<close> sorts by
  the bytewise order of strings.
\<close>

definition writeStruct :: "Types \<Rightarrow> string \<Rightarrow> string \<Rightarrow> string" where
  "writeStruct types buffer dep =
     butlast (buffer @ dep @ ''(''
              @ concat (map (\<lambda>obj. Type.Type obj @ '' '' @ Type.Name obj @ '','')
                          (Types_fields types dep)))
     @ '')''"

definition EncodeType :: "Types \<Rightarrow> string \<Rightarrow> string" where
  "EncodeType types primaryType =
     (let deps = Dependencies types primaryType [];
          deps = (if length deps > 0 then [primaryType] @ sort (tl deps) else deps)
      in foldl (writeStruct types) [] deps)"


definition TypeHash :: "lib \<Rightarrow> Types \<Rightarrow> string \<Rightarrow> byte list" where
  "TypeHash L types primaryType = Keccak256 L (map of_char (EncodeType types primaryType))"

section \<open>Validation of the type dictionary\<close>

definition isPrimitiveTypeValid :: "string \<Rightarrow> bool" where
  "isPrimitiveTypeValid primitiveType =
     (if primitiveType = ''address'' \<or> primitiveType = ''address[]'' \<or>
         primitiveType = ''bool'' \<or> primitiveType = ''bool[]'' \<or>
         primitiveType = ''string'' \<or> primitiveType = ''string[]''
      then True
      else if primitiveType = ''bytes'' \<or> primitiveType = ''bytes[]'' \<or>
              primitiveType = ''bytes1'' \<or> primitiveType = ''bytes1[]'' \<or>
              primitiveType = ''bytes2'' \<or> primitiveType = ''bytes2[]'' \<or>
              primitiveType = ''bytes3'' \<or> primitiveType = ''bytes3[]'' \<or>
              primitiveType = ''bytes4'' \<or> primitiveType = ''bytes4[]'' \<or>
              primitiveType = ''bytes5'' \<or> primitiveType = ''bytes5[]'' \<or>
              primitiveType = ''bytes6'' \<or> primitiveType = ''bytes6[]'' \<or>
              primitiveType = ''bytes7'' \<or> primitiveType = ''bytes7[]'' \<or>
              primitiveType = ''bytes8'' \<or> primitiveType = ''bytes8[]'' \<or>
              primitiveType = ''bytes9'' \<or> primitiveType = ''bytes9[]'' \<or>
              primitiveType = ''bytes10'' \<or> primitiveType = ''bytes10[]'' \<or>
              primitiveType = ''bytes11'' \<or> primitiveType = ''bytes11[]'' \<or>
              primitiveType = ''bytes12'' \<or> primitiveType = ''bytes12[]'' \<or>
              primitiveType = ''bytes13'' \<or> primitiveType = ''bytes13[]'' \<or>
              primitiveType = ''bytes14'' \<or> primitiveType = ''bytes14[]'' \<or>
              primitiveType = ''bytes15'' \<or> primitiveType = ''bytes15[]'' \<or>
              primitiveType = ''bytes16'' \<or> primitiveType = ''bytes16[]'' \<or>
              primitiveType = ''bytes17'' \<or> primitiveType = ''bytes17[]'' \<or>
              primitiveType = ''bytes18'' \<or> primitiveType = ''bytes18[]'' \<or>
              primitiveType = ''bytes19'' \<or> primitiveType = ''bytes19[]'' \<or>
              primitiveType = ''bytes20'' \<or> primitiveType = ''bytes20[]'' \<or>
              primitiveType = ''bytes21'' \<or> primitiveType = ''bytes21[]'' \<or>
              primitiveType = ''bytes22'' \<or> primitiveType = ''bytes22[]'' \<or>
              primitiveType = ''bytes23'' \<or> primitiveType = ''bytes23[]'' \<or>
              primitiveType = ''bytes24'' \<or> primitiveType = ''bytes24[]'' \<or>
              primitiveType = ''bytes25'' \<or> primitiveType = ''bytes25[]'' \<or>
              primitiveType = ''bytes26'' \<or> primitiveType = ''bytes26[]'' \<or>
              primitiveType = ''bytes27'' \<or> primitiveType = ''bytes27[]'' \<or>
              primitiveType = ''bytes28'' \<or> primitiveType = ''bytes28[]'' \<or>
              primitiveType = ''bytes29'' \<or> primitiveType = ''bytes29[]'' \<or>
              primitiveType = ''bytes30'' \<or> primitiveType = ''bytes30[]'' \<or>
              primitiveType = ''bytes31'' \<or> primitiveType = ''bytes31[]'' \<or>
              primitiveType = ''bytes32'' \<or> primitiveType = ''bytes32[]''
           then True
      else if primitiveType = ''int'' \<or> primitiveType = ''int[]'' \<or>
              primitiveType = ''int8'' \<or> primitiveType = ''int8[]'' \<or>
              primitiveType = ''int16'' \<or> primitiveType = ''int16[]'' \<or>
              primitiveType = ''int32'' \<or> primitiveType = ''int32[]'' \<or>
              primitiveType = ''int64'' \<or> primitiveType = ''int64[]'' \<or>
              primitiveType = ''int128'' \<or> primitiveType = ''int128[]'' \<or>
              primitiveType = ''int256'' \<or> primitiveType = ''int256[]''
           then True
      else if primitiveType = ''uint'' \<or> primitiveType = ''uint[]'' \<or>
              primitiveType = ''uint8'' \<or> primitiveType = ''uint8[]'' \<or>
              primitiveType = ''uint16'' \<or> primitiveType = ''uint16[]'' \<or>
              primitiveType = ''uint32'' \<or> primitiveType = ''uint32[]'' \<or>
              primitiveType = ''uint64'' \<or> primitiveType = ''uint64[]'' \<or>
              primitiveType = ''uint128'' \<or> primitiveType = ''uint128[]'' \<or>
              primitiveType = ''uint256'' \<or> primitiveType = ''uint256[]''
           then True
      else False)"

text \<open>
  \<^verbatim>\<open>typedDataReferenceTypeRegexp.MatchString\<close> for the expression
  \<^verbatim>\<open>^[A-Z](\w*)(\[\])?$\<close>: an ASCII capital, word characters, an optional final \<^verbatim>\<open>[]\<close>.
\<close>

definition is_word_char :: "char \<Rightarrow> bool" where
  "is_word_char c =
     (is_digit c \<or> is_upper_ascii c \<or> (CHR ''a'' \<le> c \<and> c \<le> CHR ''z'') \<or> c = CHR ''_'')"

definition typedDataReferenceTypeRegexp :: "string \<Rightarrow> bool" where
  "typedDataReferenceTypeRegexp s =
     (s \<noteq> [] \<and> is_upper_ascii (hd s)
      \<and> (list_all is_word_char (tl s)
           \<or> (HasSuffix (tl s) ''[]'' \<and> list_all is_word_char (TrimSuffix (tl s) ''[]''))))"

text \<open>
  \<^verbatim>\<open>Types.validate\<close>: the inner loop over the fields of one entry, the outer loop over
  the entries. Go visits the entries of a map in no fixed order, so which violation is
  reported first can differ from the list order; whether there is one does not.
\<close>

fun validate_fields :: "lib \<Rightarrow> Types \<Rightarrow> string \<Rightarrow> nat \<Rightarrow> Type list \<Rightarrow> error option" where
  "validate_fields L t typeKey i [] = None"
| "validate_fields L t typeKey i (typeObj # typeArr) =
     (if length (Type.Type typeObj) = 0 then Some (EmptyType typeKey i)
      else if length (Type.Name typeObj) = 0 then Some (EmptyName typeKey i)
      else if typeKey = Type.Type typeObj then Some (CannotReferenceItself (Type.Type typeObj))
      else if isReferenceType L typeObj then
        (if map_of t (typeName typeObj) = None
         then Some (ReferenceTypeUndefined (Type.Type typeObj))
         else if \<not> typedDataReferenceTypeRegexp (Type.Type typeObj)
         then Some (UnknownReferenceType (Type.Type typeObj))
         else validate_fields L t typeKey (Suc i) typeArr)
      else if \<not> isPrimitiveTypeValid (Type.Type typeObj)
      then Some (UnknownType (Type.Type typeObj))
      else validate_fields L t typeKey (Suc i) typeArr)"

fun validate_entries :: "lib \<Rightarrow> Types \<Rightarrow> (string \<times> Type list option) list \<Rightarrow> error option" where
  "validate_entries L t [] = None"
| "validate_entries L t ((typeKey, typeArr) # rest) =
     (if length typeKey = 0 then Some EmptyTypeKey
      else case validate_fields L t typeKey 0 (case typeArr of None \<Rightarrow> [] | Some a \<Rightarrow> a) of
             Some err \<Rightarrow> Some err
           | None \<Rightarrow> validate_entries L t rest)"

definition Types_validate :: "lib \<Rightarrow> Types \<Rightarrow> error option" where
  "Types_validate L t = validate_entries L t t"

definition TypedData_validate :: "lib \<Rightarrow> TypedData \<Rightarrow> error option" where
  "TypedData_validate L typedData =
     (case Types_validate L (Types typedData) of
        Some err \<Rightarrow> Some err
      | None \<Rightarrow>
          (case domain_validate (Domain typedData) of
             Some err \<Rightarrow> Some err
           | None \<Rightarrow> None))"

section \<open>The value encoder\<close>

text \<open>Measures for the recursion of \<^verbatim>\<open>EncodeData\<close> through the message tree.\<close>

definition data_size :: "TypedDataMessage \<Rightarrow> nat" where
  "data_size data = sum_list (map (\<lambda>kv. size (snd kv)) data)"

definition items_size :: "val list \<Rightarrow> nat" where
  "items_size arr = sum_list (map size arr)"

lemma size_le_data_size: "map_of data k = Some v \<Longrightarrow> size v \<le> data_size data"
  by (induction data) (auto simp: data_size_def split: if_splits)

lemma data_size_le_size_list: "data_size m \<le> size_list (size_prod (\<lambda>x. 0) size) m"
  by (induction m) (auto simp: data_size_def)

lemma items_size_le_size_list: "items_size arr \<le> size_list size arr"
  by (induction arr) (auto simp: items_size_def)

lemma data_at_VMap_less: "VMap m = data_at data k \<Longrightarrow> data_size m < data_size data"
  using size_le_data_size [of data k "VMap m"] data_size_le_size_list [of m]
  by (auto simp: data_at_def split: option.splits)

lemma data_at_VArray_less: "VArray arr = data_at data k \<Longrightarrow> items_size arr < data_size data"
  using size_le_data_size [of data k "VArray arr"] items_size_le_size_list [of arr]
  by (auto simp: data_at_def split: option.splits)

lemma items_size_Cons_VMap: "data_size m < items_size (VMap m # rest)"
  using data_size_le_size_list [of m] by (simp add: items_size_def)

lemma items_size_tl:
  "items_size rest \<noteq> items_size (item # rest) \<Longrightarrow> items_size rest < items_size (item # rest)"
  by (simp add: items_size_def)

text \<open>
  \<^verbatim>\<open>EncodeData\<close>, with the loop over the fields (\<open>encode_fields\<close>, threading
  \<^verbatim>\<open>buffer\<close>) and the loop over the elements of an array (\<open>encode_items\<close>, threading
  \<^verbatim>\<open>arrayBuffer\<close>). \<^verbatim>\<open>encType[len(encType)-1:]\<close> panics on an empty type string;
  \<^verbatim>\<open>strings.Split(encType, "[")[0]\<close> is the part before the first \<^verbatim>\<open>[\<close>.
\<close>

function EncodeData :: "lib \<Rightarrow> TypedData \<Rightarrow> string \<Rightarrow> TypedDataMessage \<Rightarrow> int \<Rightarrow> error + byte list"
  and encode_fields ::
    "lib \<Rightarrow> TypedData \<Rightarrow> Type list \<Rightarrow> TypedDataMessage \<Rightarrow> int \<Rightarrow> byte list \<Rightarrow> error + byte list"
  and encode_items ::
    "lib \<Rightarrow> TypedData \<Rightarrow> string \<Rightarrow> val list \<Rightarrow> int \<Rightarrow> byte list \<Rightarrow> error + byte list" where
  "EncodeData L typedData primaryType data depth =
     (case TypedData_validate L typedData of
        Some err \<Rightarrow> Inl err
      | None \<Rightarrow>
          if length (Types_fields (Types typedData) primaryType) < length data
          then Inl (ErrorString ''there is extra data provided in the message'')
          else encode_fields L typedData (Types_fields (Types typedData) primaryType) data depth
                 (TypeHash L (Types typedData) primaryType))"
| "encode_fields L typedData [] data depth buffer = Inr buffer"
| "encode_fields L typedData (field # fs) data depth buffer =
     (let encType = Type.Type field;
          encValue = data_at data (Type.Name field)
      in if encType = [] then Inl IndexPanic
         else if last encType = CHR '']'' then
           (case encValue of
              VArray arrayValue \<Rightarrow>
                (case encode_items L typedData (takeWhile (\<lambda>c. c \<noteq> CHR ''['') encType)
                        arrayValue depth [] of
                   Inl err \<Rightarrow> Inl err
                 | Inr arrayBuffer \<Rightarrow>
                     encode_fields L typedData fs data depth (buffer @ Keccak256 L arrayBuffer))
            | _ \<Rightarrow> Inl (dataMismatchError encType encValue))
         else if Types_at (Types typedData) (Type.Type field) \<noteq> None then
           (case encValue of
              VMap mapValue \<Rightarrow>
                (case EncodeData L typedData (Type.Type field) mapValue (depth + 1) of
                   Inl err \<Rightarrow> Inl err
                 | Inr encodedData \<Rightarrow>
                     encode_fields L typedData fs data depth (buffer @ Keccak256 L encodedData))
            | _ \<Rightarrow> Inl (dataMismatchError encType encValue))
         else
           (case EncodePrimitiveValue L encType encValue depth of
              Inl err \<Rightarrow> Inl err
            | Inr byteValue \<Rightarrow> encode_fields L typedData fs data depth (buffer @ byteValue)))"
| "encode_items L typedData parsedType [] depth arrayBuffer = Inr arrayBuffer"
| "encode_items L typedData parsedType (item # arrayValue) depth arrayBuffer =
     (if Types_at (Types typedData) parsedType \<noteq> None then
        (case item of
           VMap mapValue \<Rightarrow>
             (case EncodeData L typedData parsedType mapValue (depth + 1) of
                Inl err \<Rightarrow> Inl err
              | Inr encodedData \<Rightarrow>
                  encode_items L typedData parsedType arrayValue depth (arrayBuffer @ encodedData))
         | _ \<Rightarrow> Inl (dataMismatchError parsedType item))
      else
        (case EncodePrimitiveValue L parsedType item depth of
           Inl err \<Rightarrow> Inl err
         | Inr bytesValue \<Rightarrow>
             encode_items L typedData parsedType arrayValue depth (arrayBuffer @ bytesValue)))"
  by pat_completeness auto
termination
  apply (relation "measures
    [\<lambda>x. case x of Inl (L, td, p, data, depth) \<Rightarrow> data_size data
                 | Inr (Inl (L, td, fs, data, depth, buffer)) \<Rightarrow> data_size data
                 | Inr (Inr (L, td, p, arr, depth, buffer)) \<Rightarrow> items_size arr,
     \<lambda>x. case x of Inl (L, td, p, data, depth) \<Rightarrow> Suc (length (Types_fields (Types td) p))
                 | Inr (Inl (L, td, fs, data, depth, buffer)) \<Rightarrow> length fs
                 | Inr (Inr (L, td, p, arr, depth, buffer)) \<Rightarrow> length arr]")
  apply (auto dest: data_at_VMap_less data_at_VArray_less
              simp: items_size_Cons_VMap items_size_tl)
  done

definition HashStruct :: "lib \<Rightarrow> TypedData \<Rightarrow> string \<Rightarrow> TypedDataMessage \<Rightarrow> error + byte list" where
  "HashStruct L typedData primaryType data =
     (case EncodeData L typedData primaryType data 1 of
        Inl err \<Rightarrow> Inl err
      | Inr encodedData \<Rightarrow> Inr (Keccak256 L encodedData))"

section \<open>Concrete inputs and reference definitions\<close>

text \<open>
  The two array types get the code setup of lifting, and a zero address to fill the
  collaborator record of the concrete inputs: every collaborator is a constant
  function there, so that the encoder can be run on them.
\<close>

setup_lifting type_definition_Address

setup_lifting type_definition_Hash

lift_definition zero_Address :: Address is "replicate 20 0"
  by simp

definition sample_lib :: lib where
  "sample_lib = \<lparr>Keccak256 = (\<lambda>bs. replicate 32 0), IsHexAddress = (\<lambda>s. False),
                HexToAddress = (\<lambda>s. zero_Address),
                UnmarshalText = (\<lambda>s. None), Float64ToInt64 = (\<lambda>f. None),
                IsUpperNonASCII = (\<lambda>s. False)\<rparr>"

text \<open>
  The integer types of the registry with their signedness and declared width (bare
  \<^verbatim>\<open>int\<close> and \<^verbatim>\<open>uint\<close> meaning 256), as the width law names them.
\<close>

definition declared_integer_types :: "(string \<times> bool \<times> nat) list" where
  "declared_integer_types =
     [(''int8'', True, 8), (''int16'', True, 16), (''int32'', True, 32), (''int64'', True, 64),
      (''int128'', True, 128), (''int256'', True, 256), (''int'', True, 256),
      (''uint8'', False, 8), (''uint16'', False, 16), (''uint32'', False, 32),
      (''uint64'', False, 64), (''uint128'', False, 128), (''uint256'', False, 256),
      (''uint'', False, 256)]"

text \<open>
  The integer that an input of \<^verbatim>\<open>parseInteger\<close> denotes: a big integer itself, a string
  through \<^verbatim>\<open>UnmarshalText\<close>, a float that converts without loss; nothing for the other
  dynamic types.
\<close>

definition integer_value :: "lib \<Rightarrow> val \<Rightarrow> int option" where
  "integer_value L x =
     (case x of VBig v \<Rightarrow> Some v | VString s \<Rightarrow> UnmarshalText L s
      | VFloat64 f \<Rightarrow> Float64ToInt64 L f | _ \<Rightarrow> None)"

text \<open>
  The width that \<^verbatim>\<open>parseInteger\<close> reads off the type string (its first block), on its
  own.
\<close>

definition integer_length :: "string \<Rightarrow> error + int" where
  "integer_length encType =
     (if encType = ''int'' \<or> encType = ''uint'' then Inr 256
            else let lengthStr = (if HasPrefix encType ''uint'' then TrimPrefix encType ''uint''
                                  else TrimPrefix encType ''int'')
                 in case Atoi lengthStr of
                      None \<Rightarrow> Inl (InvalidSizeOnInteger lengthStr)
                    | Some atoiSize \<Rightarrow> Inr atoiSize)"

text \<open>
  The type spellings on which \<^verbatim>\<open>EncodePrimitiveValue\<close> can succeed: the four names of
  its \<^verbatim>\<open>switch\<close>, \<^verbatim>\<open>bytes\<close> followed by what \<^verbatim>\<open>Atoi\<close> reads as a number from 0 to 32,
  or \<^verbatim>\<open>int\<close>/\<^verbatim>\<open>uint\<close> bare or followed by what \<^verbatim>\<open>Atoi\<close> reads as a number.
\<close>

definition width_parsed_type :: "string \<Rightarrow> bool" where
  "width_parsed_type t =
     (t = ''address'' \<or> t = ''bool'' \<or> t = ''string'' \<or> t = ''bytes''
      \<or> (HasPrefix t ''bytes''
          \<and> (case Atoi (TrimPrefix t ''bytes'') of Some n \<Rightarrow> 0 \<le> n \<and> n \<le> 32 | None \<Rightarrow> False))
      \<or> (\<not> HasPrefix t ''bytes'' \<and> (HasPrefix t ''int'' \<or> HasPrefix t ''uint'')
          \<and> (case integer_length t of Inr len \<Rightarrow> True | Inl err \<Rightarrow> False)))"

text \<open>
  The spellings that \<^verbatim>\<open>isPrimitiveTypeValid\<close> compares with, in its order, as a list.
\<close>

definition primitive_type_registry :: "string list" where
  "primitive_type_registry =
     [''address'', ''address[]'', ''bool'', ''bool[]'', ''string'', ''string[]'',
      ''bytes'', ''bytes[]'', ''bytes1'', ''bytes1[]'', ''bytes2'', ''bytes2[]'',
      ''bytes3'', ''bytes3[]'', ''bytes4'', ''bytes4[]'', ''bytes5'', ''bytes5[]'',
      ''bytes6'', ''bytes6[]'', ''bytes7'', ''bytes7[]'', ''bytes8'', ''bytes8[]'',
      ''bytes9'', ''bytes9[]'', ''bytes10'', ''bytes10[]'', ''bytes11'', ''bytes11[]'',
      ''bytes12'', ''bytes12[]'', ''bytes13'', ''bytes13[]'', ''bytes14'', ''bytes14[]'',
      ''bytes15'', ''bytes15[]'', ''bytes16'', ''bytes16[]'', ''bytes17'', ''bytes17[]'',
      ''bytes18'', ''bytes18[]'', ''bytes19'', ''bytes19[]'', ''bytes20'', ''bytes20[]'',
      ''bytes21'', ''bytes21[]'', ''bytes22'', ''bytes22[]'', ''bytes23'', ''bytes23[]'',
      ''bytes24'', ''bytes24[]'', ''bytes25'', ''bytes25[]'', ''bytes26'', ''bytes26[]'',
      ''bytes27'', ''bytes27[]'', ''bytes28'', ''bytes28[]'', ''bytes29'', ''bytes29[]'',
      ''bytes30'', ''bytes30[]'', ''bytes31'', ''bytes31[]'', ''bytes32'', ''bytes32[]'',
      ''int'', ''int[]'', ''int8'', ''int8[]'', ''int16'', ''int16[]'', ''int32'',
      ''int32[]'', ''int64'', ''int64[]'', ''int128'', ''int128[]'', ''int256'',
      ''int256[]'', ''uint'', ''uint[]'', ''uint8'', ''uint8[]'', ''uint16'', ''uint16[]'',
      ''uint32'', ''uint32[]'', ''uint64'', ''uint64[]'', ''uint128'', ''uint128[]'',
      ''uint256'', ''uint256[]'']"

text \<open>
  Typed data with one struct \<^verbatim>\<open>S\<close> of one field \<^verbatim>\<open>uint256 x\<close>: once with a named
  domain, once with a domain whose only populated field is the chain id.
\<close>

definition example_typedData :: TypedData where
  "example_typedData =
     \<lparr>Types = [(''S'', Some [\<lparr>Type.Name = ''x'', Type = ''uint256''\<rparr>])],
      PrimaryType = ''S'',
      Domain = \<lparr>Name = ''d'', Version = [], ChainId = None, VerifyingContract = [], Salt = []\<rparr>,
      Message = [(''x'', VBig 5)]\<rparr>"

definition chainId_only_typedData :: TypedData where
  "chainId_only_typedData =
     \<lparr>Types = [(''S'', Some [\<lparr>Type.Name = ''x'', Type = ''uint256''\<rparr>])],
      PrimaryType = ''S'',
      Domain = \<lparr>Name = [], Version = [], ChainId = Some 1, VerifyingContract = [], Salt = []\<rparr>,
      Message = [(''x'', VBig 5)]\<rparr>"

text \<open>
  Two dictionaries that differ in one field type: \<^verbatim>\<open>B[]\<close> against \<^verbatim>\<open>B\<close>.
\<close>

definition array_types :: Types where
  "array_types = [(''A'', Some [\<lparr>Type.Name = ''x'', Type = ''B[]''\<rparr>]),
                  (''B'', Some [\<lparr>Type.Name = ''y'', Type = ''uint256''\<rparr>])]"

definition plain_types :: Types where
  "plain_types = [(''A'', Some [\<lparr>Type.Name = ''x'', Type = ''B''\<rparr>]),
                  (''B'', Some [\<lparr>Type.Name = ''y'', Type = ''uint256''\<rparr>])]"

section \<open>Properties\<close>

subsection \<open>Validator prefix\<close>

lemma length_Address_Bytes [simp]: "length (Address_Bytes a) = 20"
  using Address_Bytes [of a] by simp

lemma length_Hash_Bytes [simp]: "length (Hash_Bytes h) = 32"
  using Hash_Bytes [of h] by simp

text \<open>
  C8: for every 20-byte address and every message, \<open>SignTextValidator\<close> returns the
  pre-image \<open>0x19 \<parallel> 0x00 \<parallel> addr \<parallel> msg\<close>, of length \<open>2 + 20 + len(msg)\<close>, together with
  the keccak-256 digest of exactly that pre-image.
\<close>

theorem SignTextValidator_preimage:
  "snd (SignTextValidator L vd) = [0x19, 0x00] @ Address_Bytes (Address vd) @ ValidatorData.Message vd
   \<and> length (Address_Bytes (Address vd)) = 20
   \<and> length (snd (SignTextValidator L vd)) = 2 + 20 + length (ValidatorData.Message vd)
   \<and> fst (SignTextValidator L vd) = Keccak256 L (snd (SignTextValidator L vd))"
  by (simp add: SignTextValidator_def Let_def)

subsection \<open>Header guard\<close>

lemma itoa_64: "itoa 64 = ''64''"
  by (simp add: itoa.simps [of 64] itoa.simps [of 6] digit_char_def)

text \<open>
  C9: \<open>cliqueHeaderHashAndRlp\<close> returns an error exactly when the extra-data is
  shorter than 65 bytes, and then no hash and no RLP; for 64 bytes the error text is
  \<open>clique header extradata too short, 64 < 65\<close>. With 65 bytes or more there is no
  error, the hash is the 32 bytes of the seal hash and the RLP is what the encoder
  returned (non-empty when the encoder's output is).
\<close>

theorem cliqueHeaderHashAndRlp_guard:
  assumes rlp_nonempty: "\<And>h. CliqueRLP h \<noteq> []"
  shows "((snd (snd (cliqueHeaderHashAndRlp CliqueRLP SealHash header)) \<noteq> None)
           = (length (Extra header) < 65))
    \<and> (length (Extra header) < 65 \<longrightarrow>
           fst (cliqueHeaderHashAndRlp CliqueRLP SealHash header) = []
           \<and> fst (snd (cliqueHeaderHashAndRlp CliqueRLP SealHash header)) = [])
    \<and> (length (Extra header) = 64 \<longrightarrow>
           snd (snd (cliqueHeaderHashAndRlp CliqueRLP SealHash header))
             = Some ''clique header extradata too short, 64 < 65'')
    \<and> (65 \<le> length (Extra header) \<longrightarrow>
           cliqueHeaderHashAndRlp CliqueRLP SealHash header
             = (Hash_Bytes (SealHash header), CliqueRLP header, None)
           \<and> length (fst (cliqueHeaderHashAndRlp CliqueRLP SealHash header)) = 32
           \<and> fst (snd (cliqueHeaderHashAndRlp CliqueRLP SealHash header)) \<noteq> [])"
  using rlp_nonempty by (simp add: cliqueHeaderHashAndRlp_def itoa_64)

theorem cliqueHeaderHashAndRlp_guard_witness:
  "cliqueHeaderHashAndRlp (\<lambda>h. [0xc0]) (\<lambda>h. BytesToHash32 (replicate 32 0))
       \<lparr>Extra = replicate 64 0\<rparr>
     = ([], [], Some ''clique header extradata too short, 64 < 65'')
   \<and> snd (snd (cliqueHeaderHashAndRlp (\<lambda>h. [0xc0]) (\<lambda>h. BytesToHash32 (replicate 32 0))
       \<lparr>Extra = replicate 65 0\<rparr>)) = None
   \<and> length (fst (cliqueHeaderHashAndRlp (\<lambda>h. [0xc0]) (\<lambda>h. BytesToHash32 (replicate 32 0))
       \<lparr>Extra = replicate 65 0\<rparr>)) = 32
   \<and> fst (snd (cliqueHeaderHashAndRlp (\<lambda>h. [0xc0]) (\<lambda>h. BytesToHash32 (replicate 32 0))
       \<lparr>Extra = replicate 65 0\<rparr>)) \<noteq> []"
  using cliqueHeaderHashAndRlp_guard [of "\<lambda>h. [0xc0]" "\<lambda>h. BytesToHash32 (replicate 32 0)"
          "\<lparr>Extra = replicate 64 0\<rparr>"]
        cliqueHeaderHashAndRlp_guard [of "\<lambda>h. [0xc0]" "\<lambda>h. BytesToHash32 (replicate 32 0)"
          "\<lparr>Extra = replicate 65 0\<rparr>"]
  by (simp add: cliqueHeaderHashAndRlp_def itoa_64)

subsection \<open>Domain validation\<close>

text \<open>
  C7, as the code has it: domain validation fails exactly when the four string
  fields name, version, verifyingContract and salt are all empty, whatever chainId
  is; a descriptor in which one of these four is populated passes.
\<close>

theorem domain_validate_fails_iff:
  "(domain_validate d \<noteq> None)
     = (TypedDataDomain.Name d = [] \<and> Version d = [] \<and> VerifyingContract d = [] \<and> Salt d = [])"
  by (simp add: domain_validate_def)

text \<open>
  C7 as stated fails: a descriptor whose only populated field is chainId does not
  pass validation.
\<close>

theorem domain_validate_chainId_only_counterexample:
  "domain_validate \<lparr>Name = [], Version = [], ChainId = Some 1, VerifyingContract = [],
       Salt = []\<rparr> = Some (ErrorString ''domain is undefined'')"
  by (simp add: domain_validate_def)

subsection \<open>Decimal numerals\<close>

lemma digit_char_cases:
  assumes "d < 10"
  shows "is_digit (digit_char d) \<and> digit_val (digit_char d) = d"
proof -
  from assms have "d \<in> {0,1,2,3,4,5,6,7,8,9}" by auto
  then show ?thesis
    by (auto simp: digit_char_def is_digit_def digit_val_def less_eq_char_def)
qed

lemma itoa_digits: "itoa n \<noteq> [] \<and> list_all is_digit (itoa n) \<and> decimal_val (itoa n) = n"
proof (induction n rule: itoa.induct)
  case (1 n)
  show ?case
  proof (cases "n < 10")
    case True
    then show ?thesis
      using digit_char_cases [of n] by (simp add: itoa.simps [of n] decimal_val_def)
  next
    case False
    then have IH: "itoa (n div 10) \<noteq> [] \<and> list_all is_digit (itoa (n div 10))
                   \<and> decimal_val (itoa (n div 10)) = n div 10"
      using 1 by simp
    have "n mod 10 < 10" by simp
    then have d: "is_digit (digit_char (n mod 10)) \<and> digit_val (digit_char (n mod 10)) = n mod 10"
      by (rule digit_char_cases)
    from False IH d show ?thesis
      by (simp add: itoa.simps [of n] decimal_val_def)
  qed
qed

lemma is_digit_not_sign: "is_digit c \<Longrightarrow> c \<noteq> CHR ''-'' \<and> c \<noteq> CHR ''+''"
  by (auto simp: is_digit_def less_eq_char_def)

lemma Atoi_itoa: "n < 2 ^ 63 \<Longrightarrow> Atoi (itoa n) = Some (int n)"
proof -
  assume n: "n < 2 ^ 63"
  have a: "itoa n \<noteq> []" and b: "list_all is_digit (itoa n)" and c: "decimal_val (itoa n) = n"
    using itoa_digits [of n] by simp_all
  from a b have "is_digit (hd (itoa n))"
    by (cases "itoa n") simp_all
  then have h: "hd (itoa n) \<noteq> CHR ''-''" "hd (itoa n) \<noteq> CHR ''+''"
    using is_digit_not_sign by blast+
  have "int n \<le> 2 ^ 63 - 1"
    using n by (simp add: of_nat_less_iff [of n "2 ^ 63", where ?'a = int, simplified] flip: zless_add1_eq)
  with a b c h show ?thesis
    by (simp add: Atoi_def Let_def)
qed

subsection \<open>Big integers and their bytes\<close>

lemma nat_bitlen_le_iff: "(nat_bitlen n \<le> k) = (n < 2 ^ k)"
proof (induction k arbitrary: n)
  case 0
  show ?case by (simp add: nat_bitlen.simps [of n])
next
  case (Suc k)
  have "(n div 2 < 2 ^ k) = (n < 2 ^ Suc k)"
    by auto
  with Suc [of "n div 2"] show ?case
    by (simp add: nat_bitlen.simps [of n])
qed

lemma BitLen_le_iff: "(BitLen v \<le> int k) = (\<bar>v\<bar> < 2 ^ k)"
proof -
  have "(nat \<bar>v\<bar> < 2 ^ k) = (\<bar>v\<bar> < 2 ^ k)"
    by (simp add: nat_less_iff)
  then show ?thesis
    by (simp add: BitLen_def nat_bitlen_le_iff)
qed

lemma nat_bytes_0 [simp]: "nat_bytes 0 = []"
  by (simp add: nat_bytes.simps)

lemma bytes_nat_snoc: "bytes_nat (bs @ [b]) = bytes_nat bs * 256 + unat b"
  by (simp add: bytes_nat_def)

lemma unat_byte_less: "unat (b :: byte) < 256"
  using unsigned_less [of b, where ?'a = nat] by simp

lemma nat_bytes_snoc:
  "nat_bytes (n * 256 + unat (b :: byte)) = (if n = 0 \<and> b = 0 then [] else nat_bytes n @ [b])"
proof -
  have d: "(n * 256 + unat b) div 256 = n" and m: "(n * 256 + unat b) mod 256 = unat b"
    using unat_byte_less [of b] by simp_all
  have z: "(n * 256 + unat b = 0) = (n = 0 \<and> b = 0)"
    by (simp add: unat_eq_0)
  show ?thesis
    by (subst nat_bytes.simps) (simp only: d m z of_nat_unat unsigned_eq_0_iff split: if_split, simp)
qed

lemma bytes_nat_zero: "(bytes_nat bs = 0) = (\<forall>b \<in> set bs. b = 0)"
  by (induction bs rule: rev_induct) (auto simp: bytes_nat_snoc unat_eq_0 bytes_nat_def)

lemma nat_bytes_bytes_nat: "nat_bytes (bytes_nat bs) = dropWhile (\<lambda>b. b = 0) bs"
proof (induction bs rule: rev_induct)
  case Nil
  show ?case by (simp add: bytes_nat_def nat_bytes.simps [of 0])
next
  case (snoc b bs)
  show ?case
  proof (cases "\<forall>x \<in> set bs. x = 0")
    case True
    then have "bytes_nat bs = 0" by (simp add: bytes_nat_zero)
    with True show ?thesis
      by (simp add: bytes_nat_snoc nat_bytes_snoc [of 0 b, simplified] nat_bytes.simps [of 0]
            dropWhile_append2)
  next
    case False
    then have nz: "bytes_nat bs \<noteq> 0" by (simp add: bytes_nat_zero)
    from False obtain x where "x \<in> set bs" "x \<noteq> 0" by blast
    then have "dropWhile (\<lambda>b. b = 0) (bs @ [b]) = dropWhile (\<lambda>b. b = 0) bs @ [b]"
      by (simp add: dropWhile_append1)
    with nz snoc show ?thesis
      by (simp add: bytes_nat_snoc nat_bytes_snoc)
  qed
qed

lemma takeWhile_zero: "takeWhile (\<lambda>b. b = 0) bs = replicate (length (takeWhile (\<lambda>b. b = 0) bs)) (0 :: byte)"
  by (induction bs) auto

lemma pad_dropWhile:
  assumes "length bs \<le> n"
  shows "replicate (n - length (dropWhile (\<lambda>b. b = 0) bs)) (0 :: byte) @ dropWhile (\<lambda>b. b = 0) bs
           = replicate (n - length bs) 0 @ bs"
proof -
  let ?t = "takeWhile (\<lambda>b. b = 0) bs" and ?d = "dropWhile (\<lambda>b. b = 0) bs"
  have len: "length bs = length ?t + length ?d"
    by (metis length_append takeWhile_dropWhile_id)
  with assms have "n - length ?d = (n - length bs) + length ?t" by simp
  then have "replicate (n - length ?d) (0 :: byte) = replicate (n - length bs) 0 @ replicate (length ?t) 0"
    by (simp add: replicate_add)
  also have "replicate (length ?t) (0 :: byte) = ?t"
    using takeWhile_zero [of bs] by simp
  finally show ?thesis
    by simp
qed

lemma PaddedBigBytes_SetBytes:
  "length bs \<le> n \<Longrightarrow> PaddedBigBytes (SetBytes bs) n = replicate (n - length bs) 0 @ bs"
  by (simp add: PaddedBigBytes_def SetBytes_def big_Bytes_def nat_bytes_bytes_nat pad_dropWhile)

lemma length_nat_bytes: "n < 256 ^ k \<Longrightarrow> length (nat_bytes n) \<le> k"
proof (induction k arbitrary: n)
  case 0
  then show ?case by simp
next
  case (Suc k)
  then have "n div 256 < 256 ^ k"
    by (simp add: less_mult_imp_div_less mult.commute)
  then have "length (nat_bytes (n div 256)) \<le> k" by (rule Suc.IH)
  then show ?case by (simp add: nat_bytes.simps [of n])
qed

lemma bytes_nat_nat_bytes: "bytes_nat (nat_bytes n) = n"
proof (induction n rule: nat_bytes.induct)
  case (1 n)
  show ?case
  proof (cases "n = 0")
    case True
    then show ?thesis by (simp add: bytes_nat_def)
  next
    case False
    then have "bytes_nat (nat_bytes (n div 256)) = n div 256" using 1 by simp
    with False show ?thesis
      by (simp add: nat_bytes.simps [of n] bytes_nat_snoc unat_of_nat)
  qed
qed

lemma bytes_nat_replicate_zero: "bytes_nat (replicate k 0 @ bs) = bytes_nat bs"
  by (induction k) (simp_all add: bytes_nat_def)

lemma U256Bytes_length: "length (U256Bytes v) = 32"
proof -
  have "nat (v mod 2 ^ 256) < 256 ^ 32"
    by (simp add: nat_less_iff)
  then have "length (nat_bytes (nat (v mod 2 ^ 256))) \<le> 32"
    by (rule length_nat_bytes)
  then show ?thesis
    by (simp add: U256Bytes_def PaddedBigBytes_def big_Bytes_def)
qed

lemma U256Bytes_value: "int (bytes_nat (U256Bytes v)) = v mod 2 ^ 256"
  by (simp add: U256Bytes_def PaddedBigBytes_def big_Bytes_def bytes_nat_replicate_zero
        bytes_nat_nat_bytes)

subsection \<open>Width law of the integer types\<close>

lemma declared_integer_types_check:
  "list_all (\<lambda>(t, sg, N). HasPrefix t ''int'' = sg \<and> integer_length t = Inr (int N)
       \<and> t \<noteq> ''address'' \<and> t \<noteq> ''bool'' \<and> t \<noteq> ''string'' \<and> t \<noteq> ''bytes''
       \<and> \<not> HasPrefix t ''bytes'' \<and> (HasPrefix t ''int'' \<or> HasPrefix t ''uint''))
     declared_integer_types"
  by code_simp

lemma parseInteger_integer_length:
  "parseInteger L encType encValue =
     (case integer_length encType of
        Inl err \<Rightarrow> Inl err
      | Inr len \<Rightarrow>
          (case encValue of
             VBig v \<Rightarrow>
               if BitLen v > len then Inl (IntegerLargerThan encType)
               else if \<not> HasPrefix encType ''int'' \<and> v < 0 then Inl (InvalidNegativeValue encType)
               else Inr v
           | VString s \<Rightarrow>
               (case UnmarshalText L s of
                  None \<Rightarrow> Inl (UnmarshalTextError s)
                | Some v \<Rightarrow>
                    if BitLen v > len then Inl (IntegerLargerThan encType)
                    else if \<not> HasPrefix encType ''int'' \<and> v < 0
                    then Inl (InvalidNegativeValue encType)
                    else Inr v)
           | VFloat64 f \<Rightarrow>
               (case Float64ToInt64 L f of
                  None \<Rightarrow> Inl (InvalidFloatValue encValue encType)
                | Some v \<Rightarrow>
                    if BitLen v > len then Inl (IntegerLargerThan encType)
                    else if \<not> HasPrefix encType ''int'' \<and> v < 0
                    then Inl (InvalidNegativeValue encType)
                    else Inr v)
           | _ \<Rightarrow> Inl (InvalidIntegerValue encValue encType)))"
  by (simp add: parseInteger_def integer_length_def Let_def split: sum.splits val.splits option.splits)

lemma parseInteger_declared:
  assumes "integer_length t = Inr (int N)" and "HasPrefix t ''int'' = sg"
    and "integer_value L x = Some v"
  shows "parseInteger L t x =
           (if BitLen v > int N then Inl (IntegerLargerThan t)
            else if \<not> sg \<and> v < 0 then Inl (InvalidNegativeValue t)
            else Inr v)"
  using assms
  by (cases x) (simp_all add: parseInteger_integer_length integer_value_def)

lemma EncodePrimitiveValue_integer:
  assumes "t \<noteq> ''address''" "t \<noteq> ''bool''" "t \<noteq> ''string''" "t \<noteq> ''bytes''"
    and "\<not> HasPrefix t ''bytes''" and "HasPrefix t ''int'' \<or> HasPrefix t ''uint''"
  shows "EncodePrimitiveValue L t x d =
           (case parseInteger L t x of Inl err \<Rightarrow> Inl err | Inr b \<Rightarrow> Inr (U256Bytes b))"
  using assms by (simp add: EncodePrimitiveValue_def)

lemma integer_width_law:
  assumes "(t, sg, N) \<in> set declared_integer_types" and "integer_value L x = Some v"
  shows "(BitLen v \<le> int N \<and> (\<not> sg \<longrightarrow> 0 \<le> v) \<longrightarrow>
            EncodePrimitiveValue L t x d = Inr (U256Bytes v)
            \<and> length (U256Bytes v) = 32
            \<and> int (bytes_nat (U256Bytes v)) = v mod 2 ^ 256)
       \<and> (int N < BitLen v \<or> (\<not> sg \<and> v < 0) \<longrightarrow>
            (\<exists>err. EncodePrimitiveValue L t x d = Inl err))"
proof -
  from assms(1) have f: "HasPrefix t ''int'' = sg" "integer_length t = Inr (int N)"
      "t \<noteq> ''address''" "t \<noteq> ''bool''" "t \<noteq> ''string''" "t \<noteq> ''bytes''"
      "\<not> HasPrefix t ''bytes''" "HasPrefix t ''int'' \<or> HasPrefix t ''uint''"
    using declared_integer_types_check by (auto simp: list_all_iff)
  have p: "parseInteger L t x =
           (if BitLen v > int N then Inl (IntegerLargerThan t)
            else if \<not> sg \<and> v < 0 then Inl (InvalidNegativeValue t)
            else Inr v)"
    by (rule parseInteger_declared [OF f(2) f(1) assms(2)])
  have e: "EncodePrimitiveValue L t x d =
           (case parseInteger L t x of Inl err \<Rightarrow> Inl err | Inr b \<Rightarrow> Inr (U256Bytes b))"
    by (rule EncodePrimitiveValue_integer [OF f(3-8)])
  show ?thesis
    unfolding e p by (auto simp: U256Bytes_length U256Bytes_value)
qed

lemma uint8_parse:
  "HasPrefix ''uint8'' ''int'' = False" "integer_length ''uint8'' = Inr (int 8)"
  "\<not> HasPrefix ''uint8'' ''bytes''" "HasPrefix ''uint8'' ''int'' \<or> HasPrefix ''uint8'' ''uint''"
  by code_simp+

lemma BitLen_255_256: "BitLen 255 = 8" "BitLen 256 = 9"
  by code_simp+

lemma U256Bytes_255: "U256Bytes 255 = replicate 31 0 @ [0xff]"
  by code_simp

lemma uint8_255_256:
  "EncodePrimitiveValue L ''uint8'' (VBig 256) d = Inl (IntegerLargerThan ''uint8'')"
  "EncodePrimitiveValue L ''uint8'' (VBig 255) d = Inr (replicate 31 0 @ [0xff])"
proof -
  have e: "\<And>x. EncodePrimitiveValue L ''uint8'' x d =
           (case parseInteger L ''uint8'' x of Inl err \<Rightarrow> Inl err | Inr b \<Rightarrow> Inr (U256Bytes b))"
    by (rule EncodePrimitiveValue_integer [OF _ _ _ _ uint8_parse(3,4)]) simp_all
  have p: "\<And>v. parseInteger L ''uint8'' (VBig v) =
           (if BitLen v > int 8 then Inl (IntegerLargerThan ''uint8'')
            else if \<not> False \<and> v < 0 then Inl (InvalidNegativeValue ''uint8'')
            else Inr v)"
    by (rule parseInteger_declared [OF uint8_parse(2,1)]) (simp add: integer_value_def)
  show "EncodePrimitiveValue L ''uint8'' (VBig 256) d = Inl (IntegerLargerThan ''uint8'')"
    by (simp add: e p BitLen_255_256)
  show "EncodePrimitiveValue L ''uint8'' (VBig 255) d = Inr (replicate 31 0 @ [0xff])"
    by (simp add: e p BitLen_255_256 U256Bytes_255)
qed

text \<open>
  C2: for every integer type of the registry, of declared width \<open>N\<close>, and every input
  that denotes the integer \<open>v\<close>: when \<open>BitLen v \<le> N\<close>, and \<open>v \<ge> 0\<close> for an unsigned
  type, \<open>EncodePrimitiveValue\<close> succeeds with exactly 32 bytes, which read big-endian
  are \<open>v mod 2 ^ 256\<close> (the two's-complement representation); when \<open>BitLen v > N\<close>, or
  \<open>v < 0\<close> for an unsigned type, it fails. In particular \<^verbatim>\<open>uint8\<close> with 256 fails and
  \<^verbatim>\<open>uint8\<close> with 255 gives a 32-byte word that ends in \<open>0xff\<close>.
\<close>

theorem EncodePrimitiveValue_integer_width_law:
  assumes "(t, sg, N) \<in> set declared_integer_types" and "integer_value L x = Some v"
  shows "(BitLen v \<le> int N \<and> (\<not> sg \<longrightarrow> 0 \<le> v) \<longrightarrow>
            EncodePrimitiveValue L t x d = Inr (U256Bytes v)
            \<and> length (U256Bytes v) = 32
            \<and> int (bytes_nat (U256Bytes v)) = v mod 2 ^ 256)
       \<and> (int N < BitLen v \<or> (\<not> sg \<and> v < 0) \<longrightarrow>
            (\<exists>err. EncodePrimitiveValue L t x d = Inl err))
       \<and> EncodePrimitiveValue L ''uint8'' (VBig 256) d = Inl (IntegerLargerThan ''uint8'')
       \<and> EncodePrimitiveValue L ''uint8'' (VBig 255) d = Inr (replicate 31 0 @ [0xff])
       \<and> length (replicate 31 (0 :: byte) @ [0xff]) = 32
       \<and> last (replicate 31 (0 :: byte) @ [0xff]) = 0xff"
  using integer_width_law [OF assms, of d] uint8_255_256 [of L d]
  by simp

theorem EncodePrimitiveValue_integer_width_law_witness:
  "(''int16'', True, 16) \<in> set declared_integer_types
   \<and> integer_value sample_lib (VBig (- 255)) = Some (- 255)
   \<and> BitLen (- 255) \<le> 16
   \<and> EncodePrimitiveValue sample_lib ''int16'' (VBig (- 255)) 1 = Inr (U256Bytes (- 255))
   \<and> length (U256Bytes (- 255)) = 32
   \<and> int (bytes_nat (U256Bytes (- 255))) = 2 ^ 256 - 255
   \<and> (''uint8'', False, 8) \<in> set declared_integer_types
   \<and> integer_value sample_lib (VBig 256) = Some 256
   \<and> 8 < BitLen 256
   \<and> (\<exists>err. EncodePrimitiveValue sample_lib ''uint8'' (VBig 256) 1 = Inl err)"
proof -
  have m: "(''int16'', True, 16) \<in> set declared_integer_types"
          "(''uint8'', False, 8) \<in> set declared_integer_types"
    by (simp_all add: declared_integer_types_def)
  have v: "integer_value sample_lib (VBig (- 255)) = Some (- 255)"
          "integer_value sample_lib (VBig 256) = Some 256"
    by (simp_all add: integer_value_def)
  have b: "BitLen (- 255) \<le> 16" "8 < BitLen 256"
    by code_simp+
  have r: "(- 255 :: int) mod 2 ^ 256 = 2 ^ 256 - 255"
    by simp
  from EncodePrimitiveValue_integer_width_law [OF m(1) v(1), of 1]
       EncodePrimitiveValue_integer_width_law [OF m(2) v(2), of 1]
  show ?thesis
    using m v b r by simp
qed

subsection \<open>Fixed-size byte strings\<close>

text \<open>
  C3, as the code has it: for \<^verbatim>\<open>bytesN\<close> with \<open>1 \<le> N \<le> 32\<close> and a byte sequence \<open>v\<close>
  with \<open>0 < len(v) \<le> N\<close>, \<open>EncodePrimitiveValue\<close> returns a 32-byte word whose last
  \<open>len(v)\<close> bytes are the bytes of \<open>v\<close> and whose first \<open>32 - len(v)\<close> bytes are zero:
  the value goes through a big integer and is padded with zeros on the left.
\<close>

theorem EncodePrimitiveValue_bytesN_left_padded:
  assumes "1 \<le> N" and "N \<le> 32" and "0 < length v" and "length v \<le> N"
  shows "EncodePrimitiveValue L (''bytes'' @ itoa N) (VHexBytes v) d
           = Inr (replicate (32 - length v) 0 @ v)
         \<and> length (replicate (32 - length v) (0 :: byte) @ v) = 32"
proof -
  have "N < 2 ^ 63" using assms(2) by simp
  then have a: "Atoi (itoa N) = Some (int N)" by (rule Atoi_itoa)
  have ne: "itoa N \<noteq> []" using itoa_digits [of N] by simp
  have len: "length v \<le> 32" using assms by simp
  have "EncodePrimitiveValue L (''bytes'' @ itoa N) (VHexBytes v) d
          = Inr (PaddedBigBytes (SetBytes v) 32)"
    using a ne assms(2) by (simp add: EncodePrimitiveValue_def HasPrefix_def TrimPrefix_def)
  with len show ?thesis
    by (simp add: PaddedBigBytes_SetBytes)
qed

theorem EncodePrimitiveValue_bytesN_left_padded_witness:
  "(1 :: nat) \<le> 2 \<and> (2 :: nat) \<le> 32 \<and> 0 < length [0xab :: byte] \<and> length [0xab :: byte] \<le> 2
   \<and> EncodePrimitiveValue sample_lib ''bytes2'' (VHexBytes [0xab]) 1 = Inr (replicate 31 0 @ [0xab])"
proof -
  have i: "itoa 2 = ''2''" by (simp add: itoa.simps digit_char_def)
  from EncodePrimitiveValue_bytesN_left_padded [of 2 "[0xab]" sample_lib 1]
  show ?thesis by (simp add: i)
qed

text \<open>
  C3 as stated fails: for \<^verbatim>\<open>bytes1\<close> and the single byte \<open>0x01\<close> the word is 31 zero
  bytes followed by \<open>0x01\<close>, not \<open>0x01\<close> followed by 31 zero bytes.
\<close>

theorem EncodePrimitiveValue_bytesN_right_padded_counterexample:
  "EncodePrimitiveValue sample_lib ''bytes1'' (VHexBytes [0x01]) 1 = Inr (replicate 31 0 @ [0x01])
   \<and> EncodePrimitiveValue sample_lib ''bytes1'' (VHexBytes [0x01]) 1 \<noteq> Inr ([0x01] @ replicate 31 0)"
  by code_simp

text \<open>
  C4 fails on the code: the declared size of \<^verbatim>\<open>bytesN\<close> is parsed and checked to lie
  in \<open>0..32\<close>, and never compared with the length of the value. \<^verbatim>\<open>bytes1\<close> with the
  two bytes \<open>0x01 0x02\<close> is encoded, where the claim has a range error.
\<close>

theorem EncodePrimitiveValue_bytes1_accepts_two_bytes:
  "EncodePrimitiveValue L ''bytes1'' (VHexBytes [0x01, 0x02]) d = Inr (replicate 30 0 @ [0x01, 0x02])"
proof -
  have a: "Atoi ''1'' = Some 1" by code_simp
  have p: "PaddedBigBytes (SetBytes [0x01, 0x02]) 32 = replicate 30 0 @ [0x01, 0x02]"
    by (simp add: PaddedBigBytes_SetBytes)
  show ?thesis
    by (simp add: EncodePrimitiveValue_def HasPrefix_def TrimPrefix_def a p)
qed

subsection \<open>The type spellings the primitive encoder accepts\<close>

lemma if_True_else: "(if c then True else e) = (c \<or> e)"
  by simp

lemma isPrimitiveTypeValid_registry:
  "isPrimitiveTypeValid t = (t \<in> set primitive_type_registry)"
  unfolding isPrimitiveTypeValid_def primitive_type_registry_def
  by (simp only: set_simps insert_iff empty_iff if_True_else simp_thms disj_assoc)

lemma registry_check:
  "list_all (\<lambda>t. if HasSuffix t ''[]'' then \<not> width_parsed_type t else width_parsed_type t)
     primitive_type_registry"
  by code_simp

lemma EncodePrimitiveValue_success_type:
  assumes "EncodePrimitiveValue L t v d = Inr w"
  shows "width_parsed_type t"
  using assms
  by (auto simp: EncodePrimitiveValue_def width_parsed_type_def parseInteger_integer_length Let_def
           split: if_splits option.splits sum.splits)

lemma EncodePrimitiveValue_failure_type:
  assumes "\<not> width_parsed_type t"
  shows "\<exists>err. \<forall>v. EncodePrimitiveValue L t v d = Inl err"
proof (cases "HasPrefix t ''bytes''")
  case True
  with assms show ?thesis
    by (auto simp: EncodePrimitiveValue_def width_parsed_type_def Let_def split: option.splits)
next
  case False
  show ?thesis
  proof (cases "HasPrefix t ''int'' \<or> HasPrefix t ''uint''")
    case True
    with False assms obtain err where "integer_length t = Inl err"
      by (auto simp: width_parsed_type_def split: sum.splits)
    with True False assms show ?thesis
      by (auto simp: EncodePrimitiveValue_def width_parsed_type_def parseInteger_integer_length)
  next
    case f: False
    with False assms show ?thesis
      by (auto simp: EncodePrimitiveValue_def width_parsed_type_def)
  qed
qed

text \<open>
  C5, as the code has it: \<open>EncodePrimitiveValue\<close> parses the width out of the type
  spelling and does not consult the registry. It succeeds only on a spelling that is
  \<^verbatim>\<open>address\<close>, \<^verbatim>\<open>bool\<close>, \<^verbatim>\<open>string\<close>, \<^verbatim>\<open>bytes\<close>, \<^verbatim>\<open>bytes\<close> with a number from 0 to 32,
  or \<^verbatim>\<open>int\<close>/\<^verbatim>\<open>uint\<close> bare or with a number; on every other spelling it fails with
  one error for every value. Every registry spelling without \<^verbatim>\<open>[]\<close> is of the accepted
  form, and no registry spelling with \<^verbatim>\<open>[]\<close> is.
\<close>

theorem EncodePrimitiveValue_type_closure:
  "(EncodePrimitiveValue L t v d = Inr w \<longrightarrow> width_parsed_type t)
   \<and> (\<not> width_parsed_type t \<longrightarrow> (\<exists>err. \<forall>v'. EncodePrimitiveValue L t v' d = Inl err))
   \<and> (isPrimitiveTypeValid t \<and> \<not> HasSuffix t ''[]'' \<longrightarrow> width_parsed_type t)
   \<and> (isPrimitiveTypeValid t \<and> HasSuffix t ''[]'' \<longrightarrow> \<not> width_parsed_type t)"
proof -
  have r: "isPrimitiveTypeValid t \<Longrightarrow>
           (if HasSuffix t ''[]'' then \<not> width_parsed_type t else width_parsed_type t)"
    using registry_check by (simp add: isPrimitiveTypeValid_registry list_all_iff)
  show ?thesis
    using EncodePrimitiveValue_success_type [of L t v d w]
          EncodePrimitiveValue_failure_type [of t L d] r
    by (auto split: if_splits)
qed

theorem EncodePrimitiveValue_type_closure_witness:
  "EncodePrimitiveValue sample_lib ''uint24'' (VBig 5) 1 = Inr (replicate 31 0 @ [0x05])
   \<and> width_parsed_type ''uint24''
   \<and> \<not> width_parsed_type ''bytes33''
   \<and> (\<exists>err. \<forall>v'. EncodePrimitiveValue sample_lib ''bytes33'' v' 1 = Inl err)
   \<and> isPrimitiveTypeValid ''uint8'' \<and> \<not> HasSuffix ''uint8'' ''[]'' \<and> width_parsed_type ''uint8''
   \<and> isPrimitiveTypeValid ''uint8[]'' \<and> HasSuffix ''uint8[]'' ''[]''
   \<and> \<not> width_parsed_type ''uint8[]''"
proof -
  have e: "EncodePrimitiveValue sample_lib ''uint24'' (VBig 5) 1 = Inr (replicate 31 0 @ [0x05])"
    by code_simp
  have n: "\<not> width_parsed_type ''bytes33''"
    by code_simp
  have p: "isPrimitiveTypeValid ''uint8''" "\<not> HasSuffix ''uint8'' ''[]''"
          "isPrimitiveTypeValid ''uint8[]''" "HasSuffix ''uint8[]'' ''[]''"
    by code_simp+
  from EncodePrimitiveValue_type_closure [of sample_lib "''uint24''" "VBig 5" 1 "replicate 31 0 @ [0x05]"]
       EncodePrimitiveValue_type_closure [of sample_lib "''bytes33''" "VBig 5" 1 "[]"]
       EncodePrimitiveValue_type_closure [of sample_lib "''uint8''" "VBig 5" 1 "[]"]
       EncodePrimitiveValue_type_closure [of sample_lib "''uint8[]''" "VBig 5" 1 "[]"]
  show ?thesis
    using e n p by simp
qed

text \<open>
  C5 as stated fails: \<^verbatim>\<open>uint24\<close> and \<^verbatim>\<open>bytes0\<close> are outside the registry, and
  \<open>EncodePrimitiveValue\<close> succeeds on them.
\<close>

theorem EncodePrimitiveValue_uint24_counterexample:
  "\<not> isPrimitiveTypeValid ''uint24''
   \<and> EncodePrimitiveValue sample_lib ''uint24'' (VBig 5) 1 = Inr (replicate 31 0 @ [0x05])
   \<and> \<not> isPrimitiveTypeValid ''bytes0''
   \<and> EncodePrimitiveValue sample_lib ''bytes0'' (VHexBytes [0x01]) 1 = Inr (replicate 31 0 @ [0x01])"
  by code_simp

subsection \<open>The dependency search\<close>

text \<open>
  A result of \<open>Dependencies\<close> extends \<open>found\<close> by names that are new and distinct, so
  the inner loop appends exactly the new part, in order: this is why a result that
  shares its array with \<open>found\<close> is read back unchanged.
\<close>

lemma add_missing_append:
  "add_missing found (xs @ ys) = add_missing (add_missing found xs) ys"
  by (induction xs arbitrary: found) simp_all

lemma add_missing_known: "set xs \<subseteq> set found \<Longrightarrow> add_missing found xs = found"
  by (induction xs) simp_all

lemma add_missing_fresh: "distinct (found @ ext) \<Longrightarrow> add_missing found ext = found @ ext"
proof (induction ext arbitrary: found)
  case Nil
  show ?case by simp
next
  case (Cons x ext)
  from Cons.prems have "distinct ((found @ [x]) @ ext)" by simp
  then have "add_missing (found @ [x]) ext = (found @ [x]) @ ext" by (rule Cons.IH)
  with Cons.prems show ?case by simp
qed

lemma add_missing_extension:
  "distinct (found @ ext) \<Longrightarrow> add_missing found (found @ ext) = found @ ext"
  by (simp add: add_missing_append add_missing_known add_missing_fresh)

lemma Dependencies_extend:
  "distinct found \<Longrightarrow>
     (\<exists>ext. Dependencies types primaryType found = found @ ext \<and> distinct (found @ ext))"
  "distinct found \<Longrightarrow>
     (\<exists>ext. Dependencies_fields types fs found = found @ ext \<and> distinct (found @ ext))"
proof (induction types primaryType found and types fs found
       rule: Dependencies_Dependencies_fields.induct)
  case (1 types primaryType found)
  show ?case
  proof (cases "includes_str found primaryType")
    case True
    with 1 show ?thesis by simp
  next
    case False
    show ?thesis
    proof (cases "Types_at types primaryType")
      case None
      with False 1 show ?thesis by simp
    next
      case (Some fs)
      from False "1.prems" have "distinct (found @ [primaryType])" by simp
      with "1.IH" [OF False Some] obtain ext where
        "Dependencies_fields types fs (found @ [primaryType]) = (found @ [primaryType]) @ ext"
        "distinct ((found @ [primaryType]) @ ext)"
        by blast
      with False Some show ?thesis
        by (intro exI [of _ "primaryType # ext"]) simp
    qed
  qed
next
  case (2 types found)
  then show ?case by simp
next
  case (3 types field fs found)
  from "3.IH"(1) [OF "3.prems"] obtain e1 where
    e1: "Dependencies types (Type.Type field) found = found @ e1" "distinct (found @ e1)"
    by blast
  then have a: "add_missing found (Dependencies types (Type.Type field) found) = found @ e1"
    by (simp add: add_missing_extension)
  with "3.IH"(2) e1(2) obtain e2 where
    e2: "Dependencies_fields types fs (found @ e1) = (found @ e1) @ e2"
      "distinct ((found @ e1) @ e2)"
    by force
  with a show ?case
    by (intro exI [of _ "e1 @ e2"]) simp
qed

text \<open>
  \<open>Dependencies\<close> and \<open>EncodeType\<close> read the dictionary through look-ups only: two
  association lists of the same map give the same encoding.
\<close>

lemma Dependencies_map_of:
  "map_of types = map_of types' \<Longrightarrow>
     Dependencies types primaryType found = Dependencies types' primaryType found"
  "map_of types = map_of types' \<Longrightarrow>
     Dependencies_fields types fs found = Dependencies_fields types' fs found"
proof (induction types primaryType found and types fs found
       rule: Dependencies_Dependencies_fields.induct)
  case (1 types primaryType found)
  then have t: "Types_at types' primaryType = Types_at types primaryType"
    by (simp add: Types_at_def)
  show ?case
  proof (cases "includes_str found primaryType")
    case True
    then show ?thesis by simp
  next
    case False
    show ?thesis
    proof (cases "Types_at types primaryType")
      case None
      with False t show ?thesis by simp
    next
      case (Some fs)
      with False t "1.IH" [OF False Some "1.prems"] show ?thesis by simp
    qed
  qed
next
  case (2 types found)
  show ?case by simp
next
  case (3 types field fs found)
  from "3.IH"(1) [OF "3.prems"] "3.IH"(2) [OF "3.prems"] show ?case
    by simp
qed

lemma EncodeType_key_order:
  assumes "map_of types = map_of types'"
  shows "EncodeType types primaryType = EncodeType types' primaryType"
proof -
  have w: "writeStruct types = writeStruct types'"
    using assms by (intro ext) (simp add: writeStruct_def Types_fields_def Types_at_def)
  have d: "Dependencies types primaryType [] = Dependencies types' primaryType []"
    by (rule Dependencies_map_of(1) [OF assms])
  show ?thesis
    unfolding EncodeType_def d w ..
qed

subsection \<open>The type encoder on an array of structs\<close>

text \<open>
  C1 fails on the code: \<open>Dependencies\<close> looks the field type up as it is written, so a
  field of type \<^verbatim>\<open>B[]\<close> does not lead to the struct \<^verbatim>\<open>B\<close>, and \<open>EncodeType\<close> leaves the
  signature of \<^verbatim>\<open>B\<close> out; with the field type \<^verbatim>\<open>B\<close> the signature is there. Both
  dictionaries pass validation. A struct declared with no field is written \<^verbatim>\<open>S)\<close>, the
  cut taking the opening bracket.
\<close>

theorem EncodeType_array_dependency_dropped:
  "Types_validate sample_lib array_types = None
   \<and> EncodeType array_types ''A'' = ''A(B[] x)''
   \<and> Types_validate sample_lib plain_types = None
   \<and> EncodeType plain_types ''A'' = ''A(B x)B(uint256 y)''
   \<and> EncodeType [(''S'', Some [])] ''S'' = ''S)''"
  by code_simp

subsection \<open>Extra and missing fields of a message\<close>

lemma EncodePrimitiveValue_VNil:
  "\<exists>err. EncodePrimitiveValue L encType VNil depth = Inl err"
  by (auto simp: EncodePrimitiveValue_def parseInteger_def Let_def split: option.splits sum.splits if_splits)

lemma encode_fields_step:
  "(\<exists>err. encode_fields L td (f # fs) data depth buffer = Inl err)
   \<or> (\<exists>b. encode_fields L td (f # fs) data depth buffer = encode_fields L td fs data depth b)"
  by (simp add: Let_def split: val.split sum.split; blast)

lemma encode_fields_missing:
  assumes "field \<in> set fs" and "data_at data (Type.Name field) = VNil"
  shows "\<exists>err. encode_fields L td fs data depth buffer = Inl err"
  using assms
proof (induction fs arbitrary: buffer)
  case Nil
  then show ?case by simp
next
  case (Cons f fs)
  show ?case
  proof (cases "f = field")
    case True
    obtain e where "EncodePrimitiveValue L (Type.Type field) VNil depth = Inl e"
      using EncodePrimitiveValue_VNil by blast
    with True Cons.prems(2) show ?thesis
      by (simp add: Let_def)
  next
    case False
    with Cons.prems have "field \<in> set fs" by simp
    then have IH: "\<And>b. \<exists>err. encode_fields L td fs data depth b = Inl err"
      using Cons.IH Cons.prems(2) by blast
    from encode_fields_step [of L td f fs data depth buffer] show ?thesis
    proof
      assume "\<exists>err. encode_fields L td (f # fs) data depth buffer = Inl err"
      then show ?thesis .
    next
      assume "\<exists>b. encode_fields L td (f # fs) data depth buffer = encode_fields L td fs data depth b"
      then obtain b where "encode_fields L td (f # fs) data depth buffer = encode_fields L td fs data depth b"
        by blast
      with IH [of b] show ?thesis by simp
    qed
  qed
qed

text \<open>
  C6, as the code has it: for valid typed data, if the message has more entries than
  the struct declares fields, \<open>EncodeData\<close> fails with the extra-data error; and if the
  message omits a declared field, of primitive type or not, \<open>EncodeData\<close> fails: the
  absent value is the nil interface, which no type accepts.
\<close>

theorem EncodeData_extra_and_missing_fields:
  assumes "TypedData_validate L td = None"
  shows "(length (Types_fields (Types td) S) < length data \<longrightarrow>
            EncodeData L td S data depth
              = Inl (ErrorString ''there is extra data provided in the message''))
       \<and> (\<forall>field \<in> set (Types_fields (Types td) S).
            map_of data (Type.Name field) = None \<longrightarrow>
            (\<exists>err. EncodeData L td S data depth = Inl err))"
proof (intro conjI impI ballI)
  assume "length (Types_fields (Types td) S) < length data"
  with assms show "EncodeData L td S data depth
                     = Inl (ErrorString ''there is extra data provided in the message'')"
    by simp
next
  fix field
  assume f: "field \<in> set (Types_fields (Types td) S)"
    and m: "map_of data (Type.Name field) = None"
  from m have "data_at data (Type.Name field) = VNil"
    by (simp add: data_at_def)
  with f obtain err where "encode_fields L td (Types_fields (Types td) S) data depth
                             (TypeHash L (Types td) S) = Inl err"
    using encode_fields_missing by blast
  with assms show "\<exists>err. EncodeData L td S data depth = Inl err"
    by simp
qed

theorem EncodeData_extra_and_missing_fields_witness:
  "TypedData_validate sample_lib example_typedData = None
   \<and> length (Types_fields (Types example_typedData) ''S'') < length [(''x'', VBig 5), (''y'', VBig 5)]
   \<and> EncodeData sample_lib example_typedData ''S'' [(''x'', VBig 5), (''y'', VBig 5)] 1
       = Inl (ErrorString ''there is extra data provided in the message'')
   \<and> \<lparr>Type.Name = ''x'', Type = ''uint256''\<rparr> \<in> set (Types_fields (Types example_typedData) ''S'')
   \<and> map_of ([] :: TypedDataMessage) ''x'' = None
   \<and> (\<exists>err. EncodeData sample_lib example_typedData ''S'' [] 1 = Inl err)"
proof -
  have v: "TypedData_validate sample_lib example_typedData = None"
    by code_simp
  have f: "Types_fields (Types example_typedData) ''S'' = [\<lparr>Type.Name = ''x'', Type = ''uint256''\<rparr>]"
    by (simp add: example_typedData_def Types_fields_def Types_at_def)
  from EncodeData_extra_and_missing_fields [OF v, of "''S''" "[(''x'', VBig 5), (''y'', VBig 5)]" 1]
       EncodeData_extra_and_missing_fields [OF v, of "''S''" "[]" 1]
  show ?thesis
    using v by (simp add: f)
qed

text \<open>
  C6 as stated fails: the dictionary is valid, \<^verbatim>\<open>S\<close> declares the primitive field
  \<^verbatim>\<open>uint256 x\<close>, the message omits it, and \<open>EncodeData\<close> returns an error and no zero
  word.
\<close>

theorem EncodeData_missing_field_counterexample:
  "TypedData_validate sample_lib example_typedData = None
   \<and> Types_at (Types example_typedData) ''S'' = Some [\<lparr>Type.Name = ''x'', Type = ''uint256''\<rparr>]
   \<and> isPrimitiveTypeValid ''uint256''
   \<and> map_of ([] :: TypedDataMessage) ''x'' = None
   \<and> EncodeData sample_lib example_typedData ''S'' [] 1 = Inl (InvalidIntegerValue VNil ''uint256'')"
  by code_simp

subsection \<open>Validation of the domain before encoding\<close>

text \<open>
  C10: every call of \<open>EncodeData\<close>, and so of \<open>HashStruct\<close>, validates the domain
  descriptor as well as the dictionary: when the domain fails validation, both fail
  for every primary type and every message, with the domain's error when the
  dictionary is sound.
\<close>

theorem EncodeData_revalidates_domain:
  assumes "domain_validate (TypedData.Domain td) \<noteq> None"
  shows "(\<exists>err. EncodeData L td primaryType data depth = Inl err)
       \<and> (\<exists>err. HashStruct L td primaryType data = Inl err)
       \<and> (Types_validate L (Types td) = None \<longrightarrow>
            EncodeData L td primaryType data depth = Inl (ErrorString ''domain is undefined''))"
proof -
  from assms have d: "domain_validate (TypedData.Domain td) = Some (ErrorString ''domain is undefined'')"
    by (simp add: domain_validate_def split: if_splits)
  then have "TypedData_validate L td \<noteq> None"
    by (cases "Types_validate L (Types td)") (auto simp: TypedData_validate_def)
  then obtain e where e: "TypedData_validate L td = Some e"
    by blast
  then have "\<And>n. EncodeData L td primaryType data n = Inl e"
    by simp
  moreover have "Types_validate L (Types td) = None \<Longrightarrow> e = ErrorString ''domain is undefined''"
    using e d by (simp add: TypedData_validate_def)
  ultimately show ?thesis
    by (simp add: HashStruct_def)
qed

theorem EncodeData_revalidates_domain_witness:
  "domain_validate (TypedData.Domain chainId_only_typedData) \<noteq> None
   \<and> Types_validate sample_lib (Types chainId_only_typedData) = None
   \<and> EncodeData sample_lib chainId_only_typedData ''S'' [(''x'', VBig 5)] 1
       = Inl (ErrorString ''domain is undefined'')
   \<and> (\<exists>err. HashStruct sample_lib chainId_only_typedData ''S'' [(''x'', VBig 5)] = Inl err)
   \<and> EncodeData sample_lib example_typedData ''S'' [(''x'', VBig 5)] 1
       = Inr (replicate 32 0 @ replicate 31 0 @ [0x05])"
proof -
  have d: "domain_validate (TypedData.Domain chainId_only_typedData) \<noteq> None"
    by (simp add: chainId_only_typedData_def domain_validate_def)
  have t: "Types_validate sample_lib (Types chainId_only_typedData) = None"
    by code_simp
  have g: "EncodeData sample_lib example_typedData ''S'' [(''x'', VBig 5)] 1
             = Inr (replicate 32 0 @ replicate 31 0 @ [0x05])"
    by code_simp
  from EncodeData_revalidates_domain [OF d, of sample_lib "''S''" "[(''x'', VBig 5)]" 1]
  show ?thesis
    using d t g by simp
qed

end
